theory Spec2Isabelle
  imports Complex_Main
begin

section \<open>Conviction Engine v3: indicators and signals (src/app.py)\<close>

text \<open>
  The three functions of \<^verbatim>\<open>src/app.py\<close> are embedded as HOL functions.
  Prices are Python floats; they are modelled as \<^typ>\<open>real\<close>, the spec's data model
  (a price series is an "ordered sequence of real numbers"), so rounding, infinities and
  NaN are outside the model. Periods are Python ints, modelled as \<^typ>\<open>int\<close>.
  Every \<^verbatim>\<open>raise\<close>, every list index and every division of the source is a
  fallible step of the model, with the error as a value.
\<close>

subsection \<open>Python primitives\<close>

datatype py_error = ValueError | IndexError | ZeroDivisionError

text \<open>Sequencing of fallible steps: the first error ends the computation.\<close>

definition bind_res :: "py_error + 'a \<Rightarrow> ('a \<Rightarrow> py_error + 'b) \<Rightarrow> py_error + 'b" where
  "bind_res m f = (case m of Inl e \<Rightarrow> Inl e | Inr v \<Rightarrow> f v)"

text \<open>\<^verbatim>\<open>a / b\<close> on numbers raises ZeroDivisionError when \<^verbatim>\<open>b == 0\<close>.\<close>

definition py_div :: "real \<Rightarrow> real \<Rightarrow> py_error + real" where
  "py_div a b = (if b = 0 then Inl ZeroDivisionError else Inr (a / b))"

text \<open>\<^verbatim>\<open>len(xs)\<close> as a Python int.\<close>

definition len :: "'a list \<Rightarrow> int" where
  "len xs = int (length xs)"

text \<open>\<^verbatim>\<open>xs[i]\<close>: an index in \<open>0..len-1\<close> reads from the front, one in
  \<open>-len..-1\<close> from the end, and any other raises IndexError.\<close>

definition py_get :: "'a list \<Rightarrow> int \<Rightarrow> py_error + 'a" where
  "py_get xs i =
     (if 0 \<le> i \<and> i < len xs then Inr (xs ! nat i)
      else if - len xs \<le> i \<and> i < 0 then Inr (xs ! nat (len xs + i))
      else Inl IndexError)"

text \<open>\<^verbatim>\<open>xs[a:b]\<close>: negative bounds count from the end, and both bounds are clamped
  to the list; a slice never raises.\<close>

definition py_slice :: "'a list \<Rightarrow> int \<Rightarrow> int \<Rightarrow> 'a list" where
  "py_slice xs a b =
     (let n = int (length xs);
          lo = (if a < 0 then max (n + a) 0 else min a n);
          hi = (if b < 0 then max (n + b) 0 else min b n)
      in take (nat (hi - lo)) (drop (nat lo) xs))"

text \<open>\<^verbatim>\<open>range(a, b)\<close>: the integers from \<open>a\<close> up to \<open>b - 1\<close>.\<close>

definition py_range :: "int \<Rightarrow> int \<Rightarrow> int list" where
  "py_range a b = [a..b - 1]"

subsection \<open>calculate_moving_average\<close>

text \<open>The body of the \<^verbatim>\<open>for i in range(len(data))\<close> loop, over the indices still to
  visit, with the list \<^verbatim>\<open>ma\<close> built so far.\<close>

fun ma_loop :: "real list \<Rightarrow> int \<Rightarrow> int list \<Rightarrow> real option list \<Rightarrow> py_error + real option list" where
  "ma_loop data period [] ma = Inr ma"
| "ma_loop data period (i # rest) ma =
     (if i + 1 < period then ma_loop data period rest (ma @ [None])
      else let window = py_slice data (i - period + 1) (i + 1)
           in bind_res (py_div (sum_list window) (of_int period))
                (\<lambda>v. ma_loop data period rest (ma @ [Some v])))"

text \<open>The element the loop appends at index \<open>i\<close>.\<close>

definition ma_elem :: "real list \<Rightarrow> int \<Rightarrow> int \<Rightarrow> real option" where
  "ma_elem data period i =
     (if i + 1 < period then None
      else Some (sum_list (py_slice data (i - period + 1) (i + 1)) / of_int period))"

definition calculate_moving_average :: "real list \<Rightarrow> int \<Rightarrow> py_error + real option list" where
  "calculate_moving_average data period =
     (if period \<le> 0 then Inl ValueError
      else ma_loop data period (py_range 0 (len data)) [])"

subsection \<open>calculate_rsi\<close>

text \<open>\<^verbatim>\<open>[prices[i] - prices[i - 1] for i in range(1, len(prices))]\<close>, with both
  reads fallible.\<close>

fun deltas_loop :: "real list \<Rightarrow> int list \<Rightarrow> py_error + real list" where
  "deltas_loop prices [] = Inr []"
| "deltas_loop prices (i # rest) =
     bind_res (py_get prices i) (\<lambda>a.
     bind_res (py_get prices (i - 1)) (\<lambda>b.
     bind_res (deltas_loop prices rest) (\<lambda>ds. Inr ((a - b) # ds))))"

text \<open>\<^verbatim>\<open>rs = avg_gain / avg_loss if avg_loss != 0 else 0\<close> followed by
  \<^verbatim>\<open>100 - (100 / (1 + rs))\<close>: lines 59-60 and again 68-69.\<close>

definition rsi_value :: "real \<Rightarrow> real \<Rightarrow> py_error + real" where
  "rsi_value avg_gain avg_loss =
     bind_res (if avg_loss \<noteq> 0 then py_div avg_gain avg_loss else Inr 0) (\<lambda>rs.
     bind_res (py_div 100 (1 + rs)) (\<lambda>q. Inr (100 - q)))"

text \<open>The Wilder loop \<^verbatim>\<open>for i in range(period + 1, len(prices))\<close>: the state is
  \<^verbatim>\<open>(avg_gain, avg_loss, rs_values)\<close>.\<close>

fun rsi_loop :: "real list \<Rightarrow> real list \<Rightarrow> int \<Rightarrow> int list \<Rightarrow> real \<Rightarrow> real \<Rightarrow> real option list
    \<Rightarrow> py_error + real option list" where
  "rsi_loop gains losses period [] avg_gain avg_loss rs_values = Inr rs_values"
| "rsi_loop gains losses period (i # rest) avg_gain avg_loss rs_values =
     bind_res (py_get gains (i - 1)) (\<lambda>gain.
     bind_res (py_get losses (i - 1)) (\<lambda>loss.
     bind_res (py_div (avg_gain * (of_int period - 1) + gain) (of_int period)) (\<lambda>avg_gain'.
     bind_res (py_div (avg_loss * (of_int period - 1) + loss) (of_int period)) (\<lambda>avg_loss'.
     bind_res (rsi_value avg_gain' avg_loss') (\<lambda>v.
       rsi_loop gains losses period rest avg_gain' avg_loss' (rs_values @ [Some v]))))))"

definition calculate_rsi :: "real list \<Rightarrow> int \<Rightarrow> py_error + real option list" where
  "calculate_rsi prices period =
     (if period \<le> 0 then Inl ValueError
      else if len prices < period + 1 then Inr (replicate (length prices) None)
      else
        bind_res (deltas_loop prices (py_range 1 (len prices))) (\<lambda>deltas.
        let gains = map (\<lambda>delta. max delta 0) deltas;
            losses = map (\<lambda>delta. \<bar>min delta 0\<bar>) deltas
        in
        bind_res (py_div (sum_list (py_slice gains 0 period)) (of_int period)) (\<lambda>avg_gain.
        bind_res (py_div (sum_list (py_slice losses 0 period)) (of_int period)) (\<lambda>avg_loss.
        bind_res (rsi_value avg_gain avg_loss) (\<lambda>v.
          rsi_loop gains losses period (py_range (period + 1) (len prices))
            avg_gain avg_loss (replicate (nat period) None @ [Some v]))))))"

subsection \<open>generate_signals\<close>

text \<open>The per-index decision. The \<^verbatim>\<open>or\<close> chain short-circuits, so
  \<^verbatim>\<open>ma_long[i]\<close> is read only when \<^verbatim>\<open>ma_short[i]\<close> is not None, and
  \<^verbatim>\<open>rsi[i]\<close> only when neither average is None. The comparisons that follow read
  the same three elements again; the lists are not changed in between, so the model keeps
  the values of the first reads.\<close>

definition signal_at :: "real option list \<Rightarrow> real option list \<Rightarrow> real option list
    \<Rightarrow> real \<Rightarrow> real \<Rightarrow> int \<Rightarrow> py_error + string" where
  "signal_at ma_short ma_long rsi oversold overbought i =
     bind_res (py_get ma_short i) (\<lambda>s.
       case s of None \<Rightarrow> Inr ''HOLD'' | Some sv \<Rightarrow>
     bind_res (py_get ma_long i) (\<lambda>l.
       case l of None \<Rightarrow> Inr ''HOLD'' | Some lv \<Rightarrow>
     bind_res (py_get rsi i) (\<lambda>r.
       case r of None \<Rightarrow> Inr ''HOLD'' | Some rv \<Rightarrow>
         if sv > lv \<and> rv < oversold then Inr ''BUY''
         else if sv < lv \<and> rv > overbought then Inr ''SELL''
         else Inr ''HOLD'')))"

fun signals_loop :: "real option list \<Rightarrow> real option list \<Rightarrow> real option list
    \<Rightarrow> real \<Rightarrow> real \<Rightarrow> int list \<Rightarrow> string list \<Rightarrow> py_error + string list" where
  "signals_loop ma_short ma_long rsi oversold overbought [] signals = Inr signals"
| "signals_loop ma_short ma_long rsi oversold overbought (i # rest) signals =
     bind_res (signal_at ma_short ma_long rsi oversold overbought i) (\<lambda>s.
       signals_loop ma_short ma_long rsi oversold overbought rest (signals @ [s]))"

text \<open>The two thresholds are explicit arguments; the source's defaults are
  \<^verbatim>\<open>oversold=30\<close> and \<^verbatim>\<open>overbought=70\<close>. An error of one of the three indicator
  calls, taken in the source's order, is the error of the whole call.\<close>

definition generate_signals :: "real list \<Rightarrow> int \<Rightarrow> int \<Rightarrow> int \<Rightarrow> real \<Rightarrow> real
    \<Rightarrow> py_error + string list" where
  "generate_signals prices short_period long_period rsi_period oversold overbought =
     bind_res (calculate_moving_average prices short_period) (\<lambda>ma_short.
     bind_res (calculate_moving_average prices long_period) (\<lambda>ma_long.
     bind_res (calculate_rsi prices rsi_period) (\<lambda>rsi.
       signals_loop ma_short ma_long rsi oversold overbought (py_range 0 (len prices)) [])))"

section \<open>The specification's indicator and signal series\<close>

text \<open>
  These definitions follow the words of the specification, not the code: they give each
  output series index by index. The theorems below compare them with the functions above.
\<close>

text \<open>Moving average of period \<open>period\<close>: index \<open>i\<close> is undefined when
  \<open>i \<le> period - 2\<close>, and otherwise the mean of \<open>data[i-period+1..i]\<close>.\<close>

definition spec_moving_average :: "real list \<Rightarrow> int \<Rightarrow> real option list" where
  "spec_moving_average data period =
     map (\<lambda>i. if int i \<le> period - 2 then None
              else Some (sum_list (map (\<lambda>j. data ! j) [nat (int i - period + 1)..<i + 1])
                         / of_int period))
       [0..<length data]"

text \<open>\<open>gain[j] = max(series[j+1] - series[j], 0)\<close> and
  \<open>loss[j] = max(-(series[j+1] - series[j]), 0)\<close>, for \<open>j\<close> in \<open>0..n-2\<close>.\<close>

definition spec_gains :: "real list \<Rightarrow> real list" where
  "spec_gains series = map (\<lambda>j. max (series ! (j + 1) - series ! j) 0) [0..<length series - 1]"

definition spec_losses :: "real list \<Rightarrow> real list" where
  "spec_losses series = map (\<lambda>j. max (- (series ! (j + 1) - series ! j)) 0) [0..<length series - 1]"

text \<open>The smoothed average \<open>k\<close> steps after the seed, that is at price index
  \<open>p + k\<close>: the seed is the arithmetic mean of the first \<open>p\<close> values, and the step to
  price index \<open>i = p + k + 1\<close> is \<open>(avg * (p - 1) + xs[i - 1]) / p\<close>.\<close>

fun spec_avg :: "real list \<Rightarrow> nat \<Rightarrow> nat \<Rightarrow> real" where
  "spec_avg xs p 0 = sum_list (take p xs) / real p"
| "spec_avg xs p (Suc k) = (spec_avg xs p k * (real p - 1) + xs ! (p + k)) / real p"

text \<open>\<open>RS = avg_gain / avg_loss\<close> when \<open>avg_loss \<noteq> 0\<close>, and \<open>RS = 0\<close> otherwise;
  \<open>RSI = 100 - 100 / (1 + RS)\<close>.\<close>

definition spec_rs :: "real \<Rightarrow> real \<Rightarrow> real" where
  "spec_rs avg_gain avg_loss = (if avg_loss \<noteq> 0 then avg_gain / avg_loss else 0)"

definition spec_rsi_at :: "real list \<Rightarrow> nat \<Rightarrow> nat \<Rightarrow> real" where
  "spec_rsi_at series p i =
     100 - 100 / (1 + spec_rs (spec_avg (spec_gains series) p (i - p))
                              (spec_avg (spec_losses series) p (i - p)))"

text \<open>RSI of period \<open>p\<close> on a series with at least \<open>p + 1\<close> prices: undefined at
  indices \<open>0..p-1\<close>, defined from index \<open>p\<close> on.\<close>

definition spec_rsi :: "real list \<Rightarrow> nat \<Rightarrow> real option list" where
  "spec_rsi series p =
     map (\<lambda>i. if i < p then None else Some (spec_rsi_at series p i)) [0..<length series]"

text \<open>RSI on any series: all undefined, of the same length, when the series has fewer than
  \<open>period + 1\<close> prices.\<close>

definition spec_rsi_series :: "real list \<Rightarrow> int \<Rightarrow> real option list" where
  "spec_rsi_series series period =
     (if int (length series) < period + 1 then replicate (length series) None
      else spec_rsi series (nat period))"

text \<open>The signal rule at index \<open>i\<close>, given the three indicator series.\<close>

definition spec_signal :: "real option list \<Rightarrow> real option list \<Rightarrow> real option list
    \<Rightarrow> real \<Rightarrow> real \<Rightarrow> nat \<Rightarrow> string" where
  "spec_signal shortMA longMA rsi oversold overbought i =
     (if shortMA ! i = None \<or> longMA ! i = None \<or> rsi ! i = None then ''HOLD''
      else if the (shortMA ! i) > the (longMA ! i) \<and> the (rsi ! i) < oversold then ''BUY''
      else if the (shortMA ! i) < the (longMA ! i) \<and> the (rsi ! i) > overbought then ''SELL''
      else ''HOLD'')"

section \<open>Python primitives: basic facts\<close>

lemma bind_res_Inr [simp]: "bind_res (Inr v) f = f v"
  by (simp add: bind_res_def)

lemma bind_res_Inl [simp]: "bind_res (Inl e) f = Inl e"
  by (simp add: bind_res_def)

lemma py_div_nonzero [simp]: "b \<noteq> 0 \<Longrightarrow> py_div a b = Inr (a / b)"
  by (simp add: py_div_def)

lemma py_get_nat [simp]: "i < length xs \<Longrightarrow> py_get xs (int i) = Inr (xs ! i)"
  by (simp add: py_get_def len_def)

lemma py_range_nat: "py_range (int a) (int b) = map int [a..<b]"
proof (induction b)
  case 0
  then show ?case by (simp add: py_range_def)
next
  case (Suc b)
  show ?case
  proof (cases "a \<le> b")
    case True
    then have "[int a..int b] = [int a..int b - 1] @ [int b]"
      by (simp add: upto_rec2)
    with Suc True show ?thesis by (simp add: py_range_def)
  next
    case False
    then show ?thesis by (simp add: py_range_def)
  qed
qed

lemma take_drop_nth: "l + k \<le> length xs \<Longrightarrow> take k (drop l xs) = map (\<lambda>j. xs ! j) [l..<l + k]"
  by (rule nth_equalityI) simp_all

lemma py_slice_window:
  assumes "0 \<le> a" "a \<le> b" "b \<le> int (length xs)"
  shows "py_slice xs a b = map (\<lambda>j. xs ! j) [nat a..<nat b]"
proof -
  have "nat a + nat (b - a) \<le> length xs" using assms by linarith
  then have "take (nat (b - a)) (drop (nat a) xs) = map (\<lambda>j. xs ! j) [nat a..<nat a + nat (b - a)]"
    by (rule take_drop_nth)
  moreover have "nat a + nat (b - a) = nat b" using assms by linarith
  ultimately show ?thesis using assms by (simp add: py_slice_def Let_def min_def)
qed

section \<open>calculate_moving_average: the loop and its result\<close>

lemma ma_loop_eq:
  "0 < period \<Longrightarrow> ma_loop data period idx ma = Inr (ma @ map (ma_elem data period) idx)"
  by (induction idx arbitrary: ma) (simp_all add: ma_elem_def Let_def)

lemma ma_elem_spec:
  assumes "0 < period" "i < length data"
  shows "ma_elem data period (int i) =
     (if int i \<le> period - 2 then None
      else Some (sum_list (map (\<lambda>j. data ! j) [nat (int i - period + 1)..<i + 1]) / of_int period))"
proof (cases "int i + 1 < period")
  case True
  then show ?thesis by (simp add: ma_elem_def)
next
  case False
  then have "py_slice data (int i - period + 1) (int i + 1) =
      map (\<lambda>j. data ! j) [nat (int i - period + 1)..<nat (int i + 1)]"
    using assms by (intro py_slice_window) simp_all
  moreover have "nat (int i + 1) = i + 1" by simp
  ultimately show ?thesis using False by (simp add: ma_elem_def)
qed

lemma calculate_moving_average_eq:
  assumes "0 < period"
  shows "calculate_moving_average data period = Inr (spec_moving_average data period)"
proof -
  have "map (ma_elem data period) (map int [0..<length data]) = spec_moving_average data period"
    unfolding spec_moving_average_def map_map
    by (rule map_cong[OF refl]) (simp add: ma_elem_spec[OF assms] del: upt_Suc)
  then show ?thesis
    using assms py_range_nat[of 0 "length data"]
    by (simp add: calculate_moving_average_def len_def ma_loop_eq)
qed

section \<open>calculate_rsi: deltas, gains and losses, the Wilder loop\<close>

lemma py_get_pred:
  assumes "0 < i" "i < length xs"
  shows "py_get xs (int i - 1) = Inr (xs ! (i - 1))"
proof -
  have e: "int (i - 1) = int i - 1" using assms by simp
  have "py_get xs (int (i - 1)) = Inr (xs ! (i - 1))"
    using assms by (intro py_get_nat) simp
  then show ?thesis unfolding e .
qed

lemma deltas_loop_eq:
  "\<forall>i\<in>set idx. 0 < i \<and> i < length prices \<Longrightarrow>
   deltas_loop prices (map int idx) = Inr (map (\<lambda>i. prices ! i - prices ! (i - 1)) idx)"
proof (induction idx)
  case Nil
  then show ?case by simp
next
  case (Cons i idx)
  then have i: "0 < i" "i < length prices" by simp_all
  have rest: "deltas_loop prices (map int idx) = Inr (map (\<lambda>i. prices ! i - prices ! (i - 1)) idx)"
    using Cons by simp
  show ?case
    by (simp add: py_get_pred[OF i] py_get_nat[OF i(2)] rest)
qed

lemma deltas_all:
  "deltas_loop prices (py_range 1 (len prices)) =
     Inr (map (\<lambda>j. prices ! (j + 1) - prices ! j) [0..<length prices - 1])"
proof -
  let ?n = "length prices"
  have r: "py_range 1 (len prices) = map int [1..<?n]"
    using py_range_nat[of 1 ?n] by (simp add: len_def)
  have "[1..<?n] = map Suc [0..<?n - 1]"
    by (cases ?n) (simp_all add: map_Suc_upt del: upt_Suc)
  then have "map (\<lambda>i. prices ! i - prices ! (i - 1)) [1..<?n] =
      map (\<lambda>j. prices ! (j + 1) - prices ! j) [0..<?n - 1]"
    by (simp add: comp_def del: upt_Suc)
  moreover have "deltas_loop prices (map int [1..<?n]) =
      Inr (map (\<lambda>i. prices ! i - prices ! (i - 1)) [1..<?n])"
    by (rule deltas_loop_eq) simp
  ultimately show ?thesis using r by simp
qed

lemma gains_of_deltas:
  "map (\<lambda>delta. max delta 0) (map (\<lambda>j. prices ! (j + 1) - prices ! j) [0..<length prices - 1])
     = spec_gains prices"
  by (simp add: spec_gains_def)

lemma abs_min_0: "\<bar>min (d::real) 0\<bar> = max (- d) 0"
  by (cases "d \<le> 0") (simp_all add: min_def max_def)

lemma losses_of_deltas:
  "map (\<lambda>delta. \<bar>min delta 0\<bar>) (map (\<lambda>j. prices ! (j + 1) - prices ! j) [0..<length prices - 1])
     = spec_losses prices"
  by (simp add: spec_losses_def abs_min_0)

lemma spec_gains_nonneg: "\<forall>x\<in>set (spec_gains series). 0 \<le> x"
  by (simp add: spec_gains_def)

lemma spec_losses_nonneg: "\<forall>x\<in>set (spec_losses series). 0 \<le> x"
  by (simp add: spec_losses_def)

lemma length_spec_gains [simp]: "length (spec_gains series) = length series - 1"
  by (simp add: spec_gains_def)

lemma length_spec_losses [simp]: "length (spec_losses series) = length series - 1"
  by (simp add: spec_losses_def)

lemma spec_avg_nonneg:
  assumes "\<forall>x\<in>set xs. 0 \<le> x"
  shows "p + k \<le> length xs \<Longrightarrow> 0 < p \<Longrightarrow> 0 \<le> spec_avg xs p k"
proof (induction k)
  case 0
  have "\<forall>x\<in>set (take p xs). 0 \<le> x" using assms by (meson in_set_takeD)
  then have "0 \<le> sum_list (take p xs)" by (simp add: sum_list_nonneg)
  then show ?case by simp
next
  case (Suc k)
  then have "0 \<le> spec_avg xs p k" by simp
  moreover have "0 \<le> xs ! (p + k)" using assms Suc.prems by simp
  moreover have "0 \<le> real p - 1" using Suc.prems by simp
  ultimately show ?case by simp
qed


lemma rsi_value_eq:
  assumes "0 \<le> avg_gain" "0 \<le> avg_loss"
  shows "rsi_value avg_gain avg_loss = Inr (100 - 100 / (1 + spec_rs avg_gain avg_loss))"
proof (cases "avg_loss = 0")
  case True
  then show ?thesis by (simp add: rsi_value_def spec_rs_def)
next
  case False
  have "0 \<le> avg_gain / avg_loss" using assms by simp
  then have "1 + avg_gain / avg_loss \<noteq> 0" by linarith
  with False show ?thesis by (simp add: rsi_value_def spec_rs_def)
qed

lemma rsi_loop_eq:
  assumes p: "0 < p"
    and g: "\<forall>x\<in>set gains. 0 \<le> x" and l: "\<forall>x\<in>set losses. 0 \<le> x"
    and len: "length losses = length gains"
  shows "p + k + m \<le> length gains \<Longrightarrow>
     rsi_loop gains losses (int p) (map int [p + k + 1..<p + k + 1 + m])
        (spec_avg gains p k) (spec_avg losses p k) acc
     = Inr (acc @ map (\<lambda>j. Some (100 - 100 / (1 + spec_rs (spec_avg gains p (j - p))
                                                          (spec_avg losses p (j - p)))))
                    [p + k + 1..<p + k + 1 + m])"
proof (induction m arbitrary: k acc)
  case 0
  then show ?case by simp
next
  case (Suc m)
  let ?i = "p + k + 1"
  have idx: "[?i..<?i + Suc m] = ?i # [p + Suc k + 1..<p + Suc k + 1 + m]"
    by (simp add: upt_conv_Cons del: upt_Suc)
  have bound: "p + k < length gains" "p + k < length losses"
    using Suc.prems len by simp_all
  have e: "int ?i - 1 = int (p + k)" by simp
  have gg: "py_get gains (int ?i - 1) = Inr (gains ! (p + k))"
    unfolding e by (rule py_get_nat[OF bound(1)])
  have gl: "py_get losses (int ?i - 1) = Inr (losses ! (p + k))"
    unfolding e by (rule py_get_nat[OF bound(2)])
  have pz: "real_of_int (int p) \<noteq> 0" using p by simp
  have ag: "(spec_avg gains p k * (real_of_int (int p) - 1) + gains ! (p + k)) / real_of_int (int p)
      = spec_avg gains p (Suc k)" by simp
  have al: "(spec_avg losses p k * (real_of_int (int p) - 1) + losses ! (p + k)) / real_of_int (int p)
      = spec_avg losses p (Suc k)" by simp
  have nn1: "0 \<le> spec_avg gains p (Suc k)"
    by (rule spec_avg_nonneg[OF g _ p]) (use Suc.prems in simp)
  have nn2: "0 \<le> spec_avg losses p (Suc k)"
    by (rule spec_avg_nonneg[OF l _ p]) (use Suc.prems len in simp)
  have v: "rsi_value (spec_avg gains p (Suc k)) (spec_avg losses p (Suc k)) =
      Inr (100 - 100 / (1 + spec_rs (spec_avg gains p (Suc k)) (spec_avg losses p (Suc k))))"
    by (rule rsi_value_eq[OF nn1 nn2])
  have ih: "rsi_loop gains losses (int p) (map int [p + Suc k + 1..<p + Suc k + 1 + m])
        (spec_avg gains p (Suc k)) (spec_avg losses p (Suc k)) acc'
     = Inr (acc' @ map (\<lambda>j. Some (100 - 100 / (1 + spec_rs (spec_avg gains p (j - p))
                                                          (spec_avg losses p (j - p)))))
                    [p + Suc k + 1..<p + Suc k + 1 + m])" for acc'
    using Suc.prems by (intro Suc.IH) simp
  have sub: "?i - p = Suc k" by simp
  show ?case
    unfolding idx list.map rsi_loop.simps gg gl bind_res_Inr py_div_nonzero[OF pz] ag al v ih
    by (simp add: sub del: upt_Suc spec_avg.simps)
qed

lemma py_slice_prefix:
  assumes "0 \<le> b" "b \<le> int (length xs)"
  shows "py_slice xs 0 b = take (nat b) xs"
  using assms by (simp add: py_slice_def Let_def min_def)

lemma spec_rsi_split:
  assumes "p + 1 \<le> length series"
  shows "spec_rsi series p =
     (replicate p None @ [Some (spec_rsi_at series p p)])
       @ map (\<lambda>j. Some (spec_rsi_at series p j)) [p + 1..<length series]"
proof -
  have a: "[0..<length series] = [0..<p] @ [p..<length series]"
    using upt_add_eq_append[of 0 p "length series - p"] assms by simp
  have b: "[p..<length series] = p # [p + 1..<length series]"
    using assms by (simp add: upt_conv_Cons del: upt_Suc)
  have "[0..<length series] = [0..<p] @ [p] @ [p + 1..<length series]"
    unfolding a b by simp
  then have "spec_rsi series p =
      map (\<lambda>i. if i < p then None else Some (spec_rsi_at series p i)) [0..<p]
      @ [Some (spec_rsi_at series p p)]
      @ map (\<lambda>i. if i < p then None else Some (spec_rsi_at series p i)) [p + 1..<length series]"
    by (simp add: spec_rsi_def del: upt_Suc)
  moreover have "map (\<lambda>i. if i < p then None else Some (spec_rsi_at series p i)) [0..<p]
      = replicate p None"
    by (rule nth_equalityI) simp_all
  moreover have "map (\<lambda>i. if i < p then None else Some (spec_rsi_at series p i)) [p + 1..<length series]
      = map (\<lambda>j. Some (spec_rsi_at series p j)) [p + 1..<length series]"
    by (rule map_cong[OF refl]) simp
  ultimately show ?thesis by simp
qed


lemma calculate_rsi_eq:
  assumes period: "0 < period" and enough: "nat period + 1 \<le> length prices"
  shows "calculate_rsi prices period = Inr (spec_rsi prices (nat period))"
proof -
  define p where "p = nat period"
  define n where "n = length prices"
  let ?g = "spec_gains prices" and ?l = "spec_losses prices"
  have pp: "period = int p" "0 < p" using period by (simp_all add: p_def)
  have pn: "p + 1 \<le> n" using enough by (simp add: p_def n_def)
  have not_short: "\<not> len prices < period + 1"
    using pn by (simp add: len_def pp n_def)
  have pz: "real_of_int period \<noteq> 0" using period by simp
  have sg: "py_slice ?g 0 period = take p ?g"
    unfolding p_def by (rule py_slice_prefix) (use period enough in simp_all)
  have sl: "py_slice ?l 0 period = take p ?l"
    unfolding p_def by (rule py_slice_prefix) (use period enough in simp_all)
  have ag: "sum_list (take p ?g) / real_of_int period = spec_avg ?g p 0"
    by (simp add: pp)
  have al: "sum_list (take p ?l) / real_of_int period = spec_avg ?l p 0"
    by (simp add: pp)
  have nn1: "0 \<le> spec_avg ?g p 0"
    by (rule spec_avg_nonneg[OF spec_gains_nonneg _ pp(2)]) (use pn in \<open>simp add: n_def\<close>)
  have nn2: "0 \<le> spec_avg ?l p 0"
    by (rule spec_avg_nonneg[OF spec_losses_nonneg _ pp(2)]) (use pn in \<open>simp add: n_def\<close>)
  have v: "rsi_value (spec_avg ?g p 0) (spec_avg ?l p 0) = Inr (spec_rsi_at prices p p)"
    using rsi_value_eq[OF nn1 nn2] by (simp add: spec_rsi_at_def)
  have e1: "period + 1 = int (p + 1)" by (simp add: pp)
  have rng: "py_range (period + 1) (len prices) = map int [p + 1..<n]"
    unfolding e1 len_def n_def[symmetric] by (rule py_range_nat)
  have upper: "p + 1 + (n - p - 1) = n" using pn by simp
  have z: "p + 0 + 1 = p + 1" by simp
  have lens: "length ?l = length ?g" by simp
  have fits: "p + 0 + (n - p - 1) \<le> length ?g" using pn by (simp add: n_def)
  note loop = rsi_loop_eq[where k = 0 and m = "n - p - 1",
      OF pp(2) spec_gains_nonneg spec_losses_nonneg lens fits, unfolded z, unfolded upper,
      unfolded Suc_eq_plus1[symmetric]]
  have "calculate_rsi prices period =
      Inr ((replicate p None @ [Some (spec_rsi_at prices p p)])
           @ map (\<lambda>j. Some (spec_rsi_at prices p j)) [p + 1..<n])"
    unfolding calculate_rsi_def deltas_all bind_res_Inr Let_def gains_of_deltas losses_of_deltas
      sg sl py_div_nonzero[OF pz] ag al v rng
    using period not_short
    by (simp add: loop pp(1) spec_rsi_at_def
          del: upt_Suc spec_avg.simps)
  also have "\<dots> = Inr (spec_rsi prices p)"
    using spec_rsi_split[of p prices] pn by (simp add: n_def)
  finally show ?thesis by (simp add: p_def)
qed

lemma signal_at_eq:
  assumes "i < length ma_short" "i < length ma_long" "i < length rsi"
  shows "signal_at ma_short ma_long rsi oversold overbought (int i) =
     Inr (spec_signal ma_short ma_long rsi oversold overbought i)"
  unfolding signal_at_def py_get_nat[OF assms(1)] py_get_nat[OF assms(2)] py_get_nat[OF assms(3)]
    bind_res_Inr spec_signal_def
  by (cases "ma_short ! i"; cases "ma_long ! i"; cases "rsi ! i") simp_all

lemma signals_loop_eq:
  assumes "\<forall>i\<in>set idx. i < length ma_short \<and> i < length ma_long \<and> i < length rsi"
  shows "signals_loop ma_short ma_long rsi oversold overbought (map int idx) signals =
     Inr (signals @ map (spec_signal ma_short ma_long rsi oversold overbought) idx)"
  using assms
proof (induction idx arbitrary: signals)
  case Nil
  then show ?case by simp
next
  case (Cons i idx)
  then have i: "i < length ma_short" "i < length ma_long" "i < length rsi" by simp_all
  have rest: "signals_loop ma_short ma_long rsi oversold overbought (map int idx) acc =
     Inr (acc @ map (spec_signal ma_short ma_long rsi oversold overbought) idx)" for acc
    using Cons by simp
  show ?case
    by (simp add: signal_at_eq[OF i] rest)
qed

section \<open>generate_signals: the decision loop\<close>

lemma calculate_moving_average_length:
  "calculate_moving_average data period = Inr ma \<Longrightarrow> length ma = length data"
proof (cases "0 < period")
  case True
  assume "calculate_moving_average data period = Inr ma"
  with calculate_moving_average_eq[OF True, of data] show ?thesis
    by (auto simp: spec_moving_average_def)
next
  case False
  assume "calculate_moving_average data period = Inr ma"
  with False show ?thesis by (simp add: calculate_moving_average_def)
qed

lemma length_spec_rsi [simp]: "length (spec_rsi series p) = length series"
  by (simp add: spec_rsi_def)

lemma calculate_rsi_total:
  assumes "0 < period"
  shows "calculate_rsi prices period =
     Inr (if int (length prices) < period + 1 then replicate (length prices) None
          else spec_rsi prices (nat period))"
proof (cases "int (length prices) < period + 1")
  case True
  then show ?thesis using assms by (simp add: calculate_rsi_def len_def)
next
  case False
  then have "nat period + 1 \<le> length prices" using assms by linarith
  then show ?thesis using False assms by (simp add: calculate_rsi_eq)
qed

lemma calculate_rsi_length:
  "calculate_rsi prices period = Inr rsi \<Longrightarrow> length rsi = length prices"
proof (cases "0 < period")
  case True
  assume "calculate_rsi prices period = Inr rsi"
  with calculate_rsi_total[OF True, of prices] show ?thesis by (auto split: if_splits)
next
  case False
  assume "calculate_rsi prices period = Inr rsi"
  with False show ?thesis by (simp add: calculate_rsi_def)
qed

lemma generate_signals_eq:
  assumes s: "calculate_moving_average prices short_period = Inr ma_short"
    and l: "calculate_moving_average prices long_period = Inr ma_long"
    and r: "calculate_rsi prices rsi_period = Inr rsi"
  shows "generate_signals prices short_period long_period rsi_period oversold overbought =
     Inr (map (spec_signal ma_short ma_long rsi oversold overbought) [0..<length prices])"
proof -
  have lens: "length ma_short = length prices" "length ma_long = length prices"
      "length rsi = length prices"
    using calculate_moving_average_length[OF s] calculate_moving_average_length[OF l]
      calculate_rsi_length[OF r] by simp_all
  have rng: "py_range 0 (len prices) = map int [0..<length prices]"
    using py_range_nat[of 0 "length prices"] by (simp add: len_def)
  have "signals_loop ma_short ma_long rsi oversold overbought (map int [0..<length prices]) [] =
     Inr ([] @ map (spec_signal ma_short ma_long rsi oversold overbought) [0..<length prices])"
    by (rule signals_loop_eq) (simp add: lens)
  then show ?thesis
    unfolding generate_signals_def s l r bind_res_Inr rng by simp
qed

section \<open>Whole-function results shared by the claims\<close>

lemma calculate_rsi_series:
  "0 < period \<Longrightarrow> calculate_rsi prices period = Inr (spec_rsi_series prices period)"
  by (simp add: calculate_rsi_total spec_rsi_series_def)

lemma length_spec_rsi_series [simp]: "length (spec_rsi_series series period) = length series"
  by (simp add: spec_rsi_series_def)

lemma length_spec_moving_average [simp]:
  "length (spec_moving_average data period) = length data"
  by (simp add: spec_moving_average_def)

lemma generate_signals_total:
  assumes "0 < short_period" "0 < long_period" "0 < rsi_period"
  shows "generate_signals prices short_period long_period rsi_period oversold overbought =
     Inr (map (spec_signal (spec_moving_average prices short_period)
                 (spec_moving_average prices long_period)
                 (spec_rsi_series prices rsi_period) oversold overbought) [0..<length prices])"
  by (rule generate_signals_eq)
     (simp_all add: assms calculate_moving_average_eq calculate_rsi_series)

lemma generate_signals_invalid:
  assumes "short_period \<le> 0 \<or> long_period \<le> 0 \<or> rsi_period \<le> 0"
  shows "generate_signals prices short_period long_period rsi_period oversold overbought =
     Inl ValueError"
proof (cases "short_period \<le> 0")
  case True
  then show ?thesis by (simp add: generate_signals_def calculate_moving_average_def)
next
  case short: False
  then have s: "calculate_moving_average prices short_period =
      Inr (spec_moving_average prices short_period)"
    by (simp add: calculate_moving_average_eq)
  show ?thesis
  proof (cases "long_period \<le> 0")
    case True
    then have "calculate_moving_average prices long_period = Inl ValueError"
      by (simp add: calculate_moving_average_def)
    then show ?thesis unfolding generate_signals_def s by simp
  next
    case False
    then have l: "calculate_moving_average prices long_period =
        Inr (spec_moving_average prices long_period)"
      by (simp add: calculate_moving_average_eq)
    from short False assms have "rsi_period \<le> 0" by simp
    then have "calculate_rsi prices rsi_period = Inl ValueError"
      by (simp add: calculate_rsi_def)
    then show ?thesis unfolding generate_signals_def s l by simp
  qed
qed

lemma spec_signal_cases:
  "spec_signal shortMA longMA rsi oversold overbought i \<in> {''BUY'', ''SELL'', ''HOLD''}"
  by (simp add: spec_signal_def)


section \<open>Constant price series\<close>




section \<open>The claims\<close>

text \<open>
  C2. For every list \<open>data\<close> and every period \<open>\<ge> 1\<close>, calculate_moving_average
  returns a list of the same length whose element at index \<open>i\<close> is None when
  \<open>i \<le> period - 2\<close> and otherwise the arithmetic mean of \<open>data[i-period+1..i]\<close>; in
  particular calculate_moving_average([1,2,3,4,5], 3) is [None, None, 2, 3, 4].
\<close>

theorem C2_moving_average:
  "(1 \<le> period \<longrightarrow>
      calculate_moving_average data period = Inr (spec_moving_average data period)
      \<and> length (spec_moving_average data period) = length data
      \<and> (\<forall>i<length data. spec_moving_average data period ! i =
            (if int i \<le> period - 2 then None
             else Some (sum_list (map (\<lambda>j. data ! j) [nat (int i - period + 1)..<i + 1])
                        / of_int period))))
   \<and> calculate_moving_average [1, 2, 3, 4, 5] 3 = Inr [None, None, Some 2, Some 3, Some 4]"
proof -
  have "calculate_moving_average [1, 2, 3, 4, 5] 3 = Inr [None, None, Some 2, Some 3, Some 4]"
    by code_simp
  moreover have "length (spec_moving_average data period) = length data"
    by (simp add: spec_moving_average_def)
  moreover have "\<forall>i<length data. spec_moving_average data period ! i =
            (if int i \<le> period - 2 then None
             else Some (sum_list (map (\<lambda>j. data ! j) [nat (int i - period + 1)..<i + 1])
                        / of_int period))"
    by (simp add: spec_moving_average_def del: upt_Suc)
  ultimately show ?thesis
    by (simp add: calculate_moving_average_eq del: upt_Suc)
qed

theorem C2_moving_average_witness:
  "(1::int) \<le> 2 \<and> calculate_moving_average [3, 5, 4] 2 = Inr [None, Some 4, Some (9 / 2)]"
proof -
  have s: "spec_moving_average [3, 5, 4] 2 = [None, Some 4, Some (9 / 2)]"
    by code_simp
  show ?thesis
    using C2_moving_average[of 2 "[3, 5, 4]"] by (simp add: s)
qed

text \<open>
  C5. For every period \<open>\<ge> 1\<close> and every series with \<open>len(series) < period + 1\<close>,
  calculate_rsi does not fail and returns a list of None values of the length of the series.
\<close>

theorem C5_rsi_short_series:
  "1 \<le> period \<Longrightarrow> int (length series) < period + 1 \<Longrightarrow>
     calculate_rsi series period = Inr (replicate (length series) None)"
  by (simp add: calculate_rsi_def len_def)

theorem C5_rsi_short_series_witness:
  "(1::int) \<le> 3 \<and> int (length [1, 2, 3 :: real]) < 3 + 1
     \<and> calculate_rsi [1, 2, 3] 3 = Inr [None, None, None]"
  using C5_rsi_short_series[of 3 "[1, 2, 3]"] by (simp add: numeral_3_eq_3)

text \<open>
  C1. For every series and every period \<open>\<ge> 1\<close> with \<open>len(series) \<ge> period + 1\<close>,
  calculate_rsi returns None at indices \<open>0..period-1\<close>; at index \<open>period\<close> it returns
  \<open>100 - 100/(1 + RS)\<close> with RS computed from the seed averages, the arithmetic means of
  the first \<open>period\<close> gains and losses; and at each later index \<open>i\<close> the value uses the
  Wilder recurrences \<open>avg' = (avg * (period - 1) + x[i-1]) / period\<close> on the previous
  step's averages. Here \<open>spec_avg xs p k\<close> is the smoothed average at price index \<open>p + k\<close>.
\<close>

theorem C1_rsi_wilder:
  fixes series :: "real list" and period :: int
  defines "p \<equiv> nat period"
  defines "G \<equiv> spec_gains series" and "L \<equiv> spec_losses series"
  assumes "1 \<le> period" and "p + 1 \<le> length series"
  shows "calculate_rsi series period = Inr (spec_rsi series p)
    \<and> length (spec_rsi series p) = length series
    \<and> (\<forall>i<p. spec_rsi series p ! i = None)
    \<and> spec_rsi series p ! p =
         Some (100 - 100 / (1 + spec_rs (sum_list (take p G) / real p) (sum_list (take p L) / real p)))
    \<and> (\<forall>i. p < i \<and> i < length series \<longrightarrow>
          spec_rsi series p ! i =
            Some (100 - 100 / (1 + spec_rs (spec_avg G p (i - p)) (spec_avg L p (i - p))))
          \<and> spec_avg G p (i - p) = (spec_avg G p (i - p - 1) * (real p - 1) + G ! (i - 1)) / real p
          \<and> spec_avg L p (i - p) = (spec_avg L p (i - p - 1) * (real p - 1) + L ! (i - 1)) / real p)
    \<and> (\<forall>j<length series - 1.
          G ! j = max (series ! (j + 1) - series ! j) 0
          \<and> L ! j = max (- (series ! (j + 1) - series ! j)) 0)"
proof -
  have pos: "0 < period" using assms by simp
  have run: "calculate_rsi series period = Inr (spec_rsi series p)"
    unfolding p_def by (rule calculate_rsi_eq[OF pos]) (use assms in simp)
  have undefined_part: "\<forall>i<p. spec_rsi series p ! i = None"
    using assms by (simp add: spec_rsi_def)
  have seed: "spec_rsi series p ! p =
      Some (100 - 100 / (1 + spec_rs (sum_list (take p G) / real p) (sum_list (take p L) / real p)))"
    using assms by (simp add: spec_rsi_def spec_rsi_at_def)
  have step: "spec_rsi series p ! i =
            Some (100 - 100 / (1 + spec_rs (spec_avg G p (i - p)) (spec_avg L p (i - p))))
          \<and> spec_avg G p (i - p) = (spec_avg G p (i - p - 1) * (real p - 1) + G ! (i - 1)) / real p
          \<and> spec_avg L p (i - p) = (spec_avg L p (i - p - 1) * (real p - 1) + L ! (i - 1)) / real p"
    if "p < i" "i < length series" for i
  proof -
    from that(1) obtain k where ik: "i = Suc (p + k)"
      using less_imp_Suc_add by blast
    have e: "i - p = Suc k" "i - p - 1 = k" "i - 1 = p + k"
      unfolding ik by simp_all
    have v: "spec_rsi series p ! i = Some (spec_rsi_at series p i)"
      using that by (simp add: spec_rsi_def del: upt_Suc)
    show ?thesis
      unfolding v spec_rsi_at_def e G_def L_def by simp
  qed
  have gl: "\<forall>j<length series - 1.
          G ! j = max (series ! (j + 1) - series ! j) 0
          \<and> L ! j = max (- (series ! (j + 1) - series ! j)) 0"
    by (simp add: G_def L_def spec_gains_def spec_losses_def del: upt_Suc)
  have steps: "\<forall>i. p < i \<and> i < length series \<longrightarrow>
          spec_rsi series p ! i =
            Some (100 - 100 / (1 + spec_rs (spec_avg G p (i - p)) (spec_avg L p (i - p))))
          \<and> spec_avg G p (i - p) = (spec_avg G p (i - p - 1) * (real p - 1) + G ! (i - 1)) / real p
          \<and> spec_avg L p (i - p) = (spec_avg L p (i - p - 1) * (real p - 1) + L ! (i - 1)) / real p"
    using step by blast
  have same_length: "length (spec_rsi series p) = length series"
    by (rule length_spec_rsi)
  show ?thesis
    by (intro conjI; fact run same_length undefined_part seed steps gl)
qed


theorem C1_rsi_wilder_witness:
  "(1::int) \<le> 2 \<and> nat 2 + 1 \<le> length [1, 2, 4, 3, 5 :: real]
    \<and> calculate_rsi [1, 2, 4, 3, 5] 2 = Inr [None, None, Some 0, Some 60, Some (1100 / 13)]"
proof -
  have h1: "(1::int) \<le> 2" by simp
  have h2: "nat 2 + 1 \<le> length [1, 2, 4, 3, 5 :: real]" by simp
  have s: "spec_rsi [1, 2, 4, 3, 5] (nat 2) = [None, None, Some 0, Some 60, Some (1100 / 13)]"
    by code_simp
  have "calculate_rsi [1, 2, 4, 3, 5] 2 = Inr (spec_rsi [1, 2, 4, 3, 5] (nat 2))"
    using C1_rsi_wilder[OF h1 h2] by (rule conjunct1)
  then have "calculate_rsi [1, 2, 4, 3, 5] 2 = Inr [None, None, Some 0, Some 60, Some (1100 / 13)]"
    unfolding s .
  with h1 h2 show ?thesis by (intro conjI)
qed

text \<open>
  C3. For all periods \<open>\<ge> 1\<close> and any thresholds, generate_signals produces at each index
  \<open>i\<close>: HOLD if any of shortMA[i], longMA[i], rsi[i] is None; otherwise BUY exactly when
  \<open>shortMA[i] > longMA[i]\<close> and \<open>rsi[i] < oversold\<close>; otherwise SELL exactly when
  \<open>shortMA[i] < longMA[i]\<close> and \<open>rsi[i] > overbought\<close>; otherwise HOLD. A tie
  \<open>shortMA[i] = longMA[i]\<close> always yields HOLD.
\<close>

theorem C3_signal_rule:
  "1 \<le> short_period \<and> 1 \<le> long_period \<and> 1 \<le> rsi_period \<longrightarrow>
     (\<exists>shortMA longMA rsi.
        calculate_moving_average prices short_period = Inr shortMA
      \<and> calculate_moving_average prices long_period = Inr longMA
      \<and> calculate_rsi prices rsi_period = Inr rsi
      \<and> generate_signals prices short_period long_period rsi_period oversold overbought
          = Inr (map (\<lambda>i.
              if shortMA ! i = None \<or> longMA ! i = None \<or> rsi ! i = None then ''HOLD''
              else if the (shortMA ! i) > the (longMA ! i) \<and> the (rsi ! i) < oversold then ''BUY''
              else if the (shortMA ! i) < the (longMA ! i) \<and> the (rsi ! i) > overbought then ''SELL''
              else ''HOLD'') [0..<length prices])
      \<and> (\<forall>i. shortMA ! i = longMA ! i \<longrightarrow>
            spec_signal shortMA longMA rsi oversold overbought i = ''HOLD''))"
proof (intro impI)
  assume periods: "1 \<le> short_period \<and> 1 \<le> long_period \<and> 1 \<le> rsi_period"
  let ?s = "spec_moving_average prices short_period"
  let ?l = "spec_moving_average prices long_period"
  let ?r = "spec_rsi_series prices rsi_period"
  have s: "calculate_moving_average prices short_period = Inr ?s"
    using periods by (simp add: calculate_moving_average_eq)
  have l: "calculate_moving_average prices long_period = Inr ?l"
    using periods by (simp add: calculate_moving_average_eq)
  have r: "calculate_rsi prices rsi_period = Inr ?r"
    using periods by (simp add: calculate_rsi_series)
  have g: "generate_signals prices short_period long_period rsi_period oversold overbought
          = Inr (map (\<lambda>i.
              if ?s ! i = None \<or> ?l ! i = None \<or> ?r ! i = None then ''HOLD''
              else if the (?s ! i) > the (?l ! i) \<and> the (?r ! i) < oversold then ''BUY''
              else if the (?s ! i) < the (?l ! i) \<and> the (?r ! i) > overbought then ''SELL''
              else ''HOLD'') [0..<length prices])"
    using generate_signals_eq[OF s l r, of oversold overbought]
    unfolding spec_signal_def .
  have tie: "\<forall>i. ?s ! i = ?l ! i \<longrightarrow> spec_signal ?s ?l ?r oversold overbought i = ''HOLD''"
    by (simp add: spec_signal_def)
  show "\<exists>shortMA longMA rsi.
        calculate_moving_average prices short_period = Inr shortMA
      \<and> calculate_moving_average prices long_period = Inr longMA
      \<and> calculate_rsi prices rsi_period = Inr rsi
      \<and> generate_signals prices short_period long_period rsi_period oversold overbought
          = Inr (map (\<lambda>i.
              if shortMA ! i = None \<or> longMA ! i = None \<or> rsi ! i = None then ''HOLD''
              else if the (shortMA ! i) > the (longMA ! i) \<and> the (rsi ! i) < oversold then ''BUY''
              else if the (shortMA ! i) < the (longMA ! i) \<and> the (rsi ! i) > overbought then ''SELL''
              else ''HOLD'') [0..<length prices])
      \<and> (\<forall>i. shortMA ! i = longMA ! i \<longrightarrow>
            spec_signal shortMA longMA rsi oversold overbought i = ''HOLD'')"
    by (intro exI[of _ ?s] exI[of _ ?l] exI[of _ ?r] conjI; fact s l r g tie)
qed
theorem C3_signal_rule_witness:
  "(1::int) \<le> 1 \<and> (1::int) \<le> 2 \<and> (1::int) \<le> 2
    \<and> generate_signals [1, 2, 3, 4] 1 2 2 30 70 = Inr [''HOLD'', ''HOLD'', ''BUY'', ''BUY'']"
proof -
  have h: "(1::int) \<le> 1 \<and> (1::int) \<le> 2 \<and> (1::int) \<le> 2" by simp
  have s: "calculate_moving_average [1, 2, 3, 4] 1 = Inr [Some 1, Some 2, Some 3, Some 4]"
    by code_simp
  have l: "calculate_moving_average [1, 2, 3, 4] 2 = Inr [None, Some (3 / 2), Some (5 / 2), Some (7 / 2)]"
    by code_simp
  have r: "calculate_rsi [1, 2, 3, 4] 2 = Inr [None, None, Some 0, Some 0]"
    by code_simp
  have idx: "[0..<length [1, 2, 3, 4 :: real]] = [0, 1, 2, 3]"
    by code_simp
  from C3_signal_rule[of 1 2 2 "[1, 2, 3, 4]" 30 70] h
  obtain shortMA longMA rsi where
    "calculate_moving_average [1, 2, 3, 4] 1 = Inr shortMA"
    "calculate_moving_average [1, 2, 3, 4] 2 = Inr longMA"
    "calculate_rsi [1, 2, 3, 4] 2 = Inr rsi"
    and g: "generate_signals [1, 2, 3, 4] 1 2 2 30 70
          = Inr (map (\<lambda>i.
              if shortMA ! i = None \<or> longMA ! i = None \<or> rsi ! i = None then ''HOLD''
              else if the (shortMA ! i) > the (longMA ! i) \<and> the (rsi ! i) < 30 then ''BUY''
              else if the (shortMA ! i) < the (longMA ! i) \<and> the (rsi ! i) > 70 then ''SELL''
              else ''HOLD'') [0..<length [1, 2, 3, 4 :: real]])"
    by blast
  then have v: "shortMA = [Some 1, Some 2, Some 3, Some 4]"
      "longMA = [None, Some (3 / 2), Some (5 / 2), Some (7 / 2)]"
      "rsi = [None, None, Some 0, Some 0]"
    unfolding s l r by simp_all
  have "generate_signals [1, 2, 3, 4] 1 2 2 30 70 = Inr [''HOLD'', ''HOLD'', ''BUY'', ''BUY'']"
    unfolding g v idx by simp
  with h show ?thesis by blast
qed

text \<open>
  C4. For every period \<open>\<ge> 1\<close>, whenever the smoothed average loss is 0 at a defined RSI
  index, calculate_rsi sets \<open>RS = 0\<close> and outputs \<open>RSI = 0\<close> there: the step
  \<open>rsi_value\<close> of the source gives 0 on a zero average loss whatever the average gain,
  and so does the whole function at every index where the smoothed loss is 0. For
  calculate_rsi([1,2,3,4,5,6,7,8], 3) every defined output is 0.
\<close>

theorem C4_zero_avg_loss:
  "rsi_value avg_gain 0 = Inr 0
   \<and> (1 \<le> period \<and> nat period + 1 \<le> length series \<and> nat period \<le> i \<and> i < length series
        \<and> spec_avg (spec_losses series) (nat period) (i - nat period) = 0
      \<longrightarrow> (\<exists>r. calculate_rsi series period = Inr r \<and> r ! i = Some 0))
   \<and> calculate_rsi [1, 2, 3, 4, 5, 6, 7, 8] 3
        = Inr [None, None, None, Some 0, Some 0, Some 0, Some 0, Some 0]"
proof (intro conjI impI)
  show "rsi_value avg_gain 0 = Inr 0"
    by (simp add: rsi_value_def)
next
  assume a: "1 \<le> period \<and> nat period + 1 \<le> length series \<and> nat period \<le> i \<and> i < length series
        \<and> spec_avg (spec_losses series) (nat period) (i - nat period) = 0"
  then have run: "calculate_rsi series period = Inr (spec_rsi series (nat period))"
    by (intro calculate_rsi_eq) simp_all
  have "spec_rsi series (nat period) ! i = Some (spec_rsi_at series (nat period) i)"
    using a by (simp add: spec_rsi_def del: upt_Suc)
  also have "spec_rsi_at series (nat period) i = 0"
    using a by (simp add: spec_rsi_at_def spec_rs_def)
  finally show "\<exists>r. calculate_rsi series period = Inr r \<and> r ! i = Some 0"
    using run by blast
next
  show "calculate_rsi [1, 2, 3, 4, 5, 6, 7, 8] 3
        = Inr [None, None, None, Some 0, Some 0, Some 0, Some 0, Some 0]"
    by code_simp
qed

theorem C4_zero_avg_loss_witness:
  "(1::int) \<le> 2 \<and> nat 2 + 1 \<le> length [1, 2, 3, 4, 3 :: real] \<and> nat 2 \<le> (3::nat)
    \<and> 3 < length [1, 2, 3, 4, 3 :: real]
    \<and> spec_avg (spec_losses [1, 2, 3, 4, 3]) (nat 2) (3 - nat 2) = 0
    \<and> (\<exists>r. calculate_rsi [1, 2, 3, 4, 3] 2 = Inr r \<and> r ! 3 = Some 0)"
proof -
  have z: "spec_avg (spec_losses [1, 2, 3, 4, 3]) (nat 2) (3 - nat 2) = 0"
    by code_simp
  have h: "(1::int) \<le> 2 \<and> nat 2 + 1 \<le> length [1, 2, 3, 4, 3 :: real] \<and> nat 2 \<le> (3::nat)
    \<and> 3 < length [1, 2, 3, 4, 3 :: real]
    \<and> spec_avg (spec_losses [1, 2, 3, 4, 3]) (nat 2) (3 - nat 2) = 0"
    using z by simp
  from C4_zero_avg_loss[of 0 2 "[1, 2, 3, 4, 3]" 3] h
  have "\<exists>r. calculate_rsi [1, 2, 3, 4, 3] 2 = Inr r \<and> r ! 3 = Some 0"
    by blast
  with h show ?thesis by blast
qed

text \<open>
  C6. For every input series and every period \<open>\<le> 0\<close> (for example 0 and -1),
  calculate_moving_average and calculate_rsi fail at once with ValueError, the
  InvalidParameter error, and produce no partial result; generate_signals passes this
  failure on to its caller whenever any of its three periods is \<open>\<le> 0\<close>.
\<close>

theorem C6_invalid_period:
  "(period \<le> 0 \<longrightarrow>
      calculate_moving_average data period = Inl ValueError
      \<and> calculate_rsi data period = Inl ValueError)
   \<and> (short_period \<le> 0 \<or> long_period \<le> 0 \<or> rsi_period \<le> 0 \<longrightarrow>
      generate_signals prices short_period long_period rsi_period oversold overbought
        = Inl ValueError)
   \<and> calculate_moving_average data 0 = Inl ValueError
   \<and> calculate_moving_average data (- 1) = Inl ValueError"
  by (simp add: calculate_moving_average_def calculate_rsi_def generate_signals_invalid)

theorem C6_invalid_period_witness:
  "(- 1 :: int) \<le> 0
   \<and> calculate_moving_average [1, 2, 3] (- 1) = Inl ValueError
   \<and> calculate_rsi [1, 2, 3] (- 1) = Inl ValueError
   \<and> ((5::int) \<le> 0 \<or> (0::int) \<le> 0 \<or> (14::int) \<le> 0)
   \<and> generate_signals [1, 2, 3] 5 0 14 30 70 = Inl ValueError"
  using C6_invalid_period[of "- 1" "[1, 2, 3]" 5 0 14 "[1, 2, 3]" 30 70] by simp

text \<open>
  C7. For every price series and all periods \<open>\<ge> 1\<close> the outputs are aligned with the
  input: calculate_moving_average and calculate_rsi return lists of the length of the
  series (calculate_rsi in the all-None case and in the computed case alike), and
  generate_signals returns a list of that length whose elements are "BUY", "SELL" or "HOLD".
\<close>

theorem C7_alignment:
  "(1 \<le> p \<longrightarrow>
      (\<exists>ma. calculate_moving_average s p = Inr ma \<and> length ma = length s)
      \<and> (\<exists>rsi. calculate_rsi s p = Inr rsi \<and> length rsi = length s))
   \<and> (1 \<le> short_period \<and> 1 \<le> long_period \<and> 1 \<le> rsi_period \<longrightarrow>
      (\<exists>signals. generate_signals s short_period long_period rsi_period oversold overbought
            = Inr signals
         \<and> length signals = length s
         \<and> set signals \<subseteq> {''BUY'', ''SELL'', ''HOLD''}))"
proof (intro conjI impI)
  assume "1 \<le> p"
  then show "\<exists>ma. calculate_moving_average s p = Inr ma \<and> length ma = length s"
    by (simp add: calculate_moving_average_eq)
next
  assume "1 \<le> p"
  then show "\<exists>rsi. calculate_rsi s p = Inr rsi \<and> length rsi = length s"
    by (simp add: calculate_rsi_series)
next
  assume a: "1 \<le> short_period \<and> 1 \<le> long_period \<and> 1 \<le> rsi_period"
  let ?sg = "map (spec_signal (spec_moving_average s short_period)
                 (spec_moving_average s long_period)
                 (spec_rsi_series s rsi_period) oversold overbought) [0..<length s]"
  have "generate_signals s short_period long_period rsi_period oversold overbought = Inr ?sg"
    using a by (intro generate_signals_total) simp_all
  moreover have "length ?sg = length s" by simp
  moreover have "set ?sg \<subseteq> {''BUY'', ''SELL'', ''HOLD''}"
  proof
    fix x assume "x \<in> set ?sg"
    then obtain i where "x = spec_signal (spec_moving_average s short_period)
                 (spec_moving_average s long_period)
                 (spec_rsi_series s rsi_period) oversold overbought i"
      by (auto simp del: upt_Suc)
    then show "x \<in> {''BUY'', ''SELL'', ''HOLD''}"
      by (simp only: spec_signal_cases)
  qed
  ultimately show "\<exists>signals.
      generate_signals s short_period long_period rsi_period oversold overbought = Inr signals
         \<and> length signals = length s
         \<and> set signals \<subseteq> {''BUY'', ''SELL'', ''HOLD''}"
    by blast
qed

theorem C7_alignment_witness:
  "(1::int) \<le> 2
    \<and> (\<exists>ma. calculate_moving_average [1, 2, 3] 2 = Inr ma \<and> length ma = length [1, 2, 3 :: real])
    \<and> (\<exists>rsi. calculate_rsi [1, 2, 3] 2 = Inr rsi \<and> length rsi = length [1, 2, 3 :: real])
    \<and> (1::int) \<le> 1 \<and> (1::int) \<le> 2 \<and> (1::int) \<le> 2
    \<and> (\<exists>signals. generate_signals [1, 2, 3] 1 2 2 30 70 = Inr signals
         \<and> length signals = length [1, 2, 3 :: real]
         \<and> set signals \<subseteq> {''BUY'', ''SELL'', ''HOLD''})"
proof -
  have h: "(1::int) \<le> 2" "(1::int) \<le> 1 \<and> (1::int) \<le> 2 \<and> (1::int) \<le> 2" by simp_all
  note t = C7_alignment[of 2 "[1, 2, 3]" 1 2 2 30 70]
  from t h(1) have a: "(\<exists>ma. calculate_moving_average [1, 2, 3] 2 = Inr ma \<and> length ma = length [1, 2, 3 :: real])
    \<and> (\<exists>rsi. calculate_rsi [1, 2, 3] 2 = Inr rsi \<and> length rsi = length [1, 2, 3 :: real])"
    by blast
  from t h(2) have b: "\<exists>signals. generate_signals [1, 2, 3] 1 2 2 30 70 = Inr signals
         \<and> length signals = length [1, 2, 3 :: real]
         \<and> set signals \<subseteq> {''BUY'', ''SELL'', ''HOLD''}"
    by blast
  from a b h show ?thesis by blast
qed



text \<open>
  C10. For all periods \<open>\<ge> 1\<close> every execution path of generate_signals,
  calculate_moving_average and calculate_rsi is total on any input series, the empty
  series included: every list read is in bounds and no division is by zero, so ValueError on
  a period \<open>\<le> 0\<close> is the only error that can be raised. In the model every list read
  and every division (by \<open>period\<close>, by \<open>avg_loss\<close>, and \<open>100 / (1 + rs)\<close>) can fail,
  and the theorem shows that none does.
\<close>

theorem C10_total:
  "(1 \<le> period \<longrightarrow>
      (\<exists>ma. calculate_moving_average prices period = Inr ma)
      \<and> (\<exists>rsi. calculate_rsi prices period = Inr rsi))
   \<and> (1 \<le> short_period \<and> 1 \<le> long_period \<and> 1 \<le> rsi_period \<longrightarrow>
      (\<exists>signals. generate_signals prices short_period long_period rsi_period oversold overbought
          = Inr signals))
   \<and> (\<forall>e. calculate_moving_average prices period = Inl e \<longrightarrow> e = ValueError \<and> period \<le> 0)
   \<and> (\<forall>e. calculate_rsi prices period = Inl e \<longrightarrow> e = ValueError \<and> period \<le> 0)
   \<and> (\<forall>e. generate_signals prices short_period long_period rsi_period oversold overbought = Inl e
          \<longrightarrow> e = ValueError \<and> (short_period \<le> 0 \<or> long_period \<le> 0 \<or> rsi_period \<le> 0))
   \<and> (1 \<le> period \<longrightarrow>
        calculate_moving_average [] period = Inr [] \<and> calculate_rsi [] period = Inr [])
   \<and> (1 \<le> short_period \<and> 1 \<le> long_period \<and> 1 \<le> rsi_period \<longrightarrow>
        generate_signals [] short_period long_period rsi_period oversold overbought = Inr [])
   \<and> (0 \<le> avg_gain \<and> 0 \<le> avg_loss \<longrightarrow> (\<exists>v. rsi_value avg_gain avg_loss = Inr v))"
proof -
  have ma: "calculate_moving_average xs q = Inr (spec_moving_average xs q)" if "1 \<le> q" for xs q
    using that by (simp add: calculate_moving_average_eq)
  have rsi: "calculate_rsi xs q = Inr (spec_rsi_series xs q)" if "1 \<le> q" for xs q
    using that by (simp add: calculate_rsi_series)
  have gs: "generate_signals xs short_period long_period rsi_period oversold overbought =
     Inr (map (spec_signal (spec_moving_average xs short_period)
                 (spec_moving_average xs long_period)
                 (spec_rsi_series xs rsi_period) oversold overbought) [0..<length xs])"
    if "1 \<le> short_period \<and> 1 \<le> long_period \<and> 1 \<le> rsi_period" for xs
    using that by (intro generate_signals_total) simp_all
  have c1: "1 \<le> period \<longrightarrow>
      (\<exists>ma. calculate_moving_average prices period = Inr ma)
      \<and> (\<exists>rsi. calculate_rsi prices period = Inr rsi)"
    using ma rsi by blast
  have c2: "1 \<le> short_period \<and> 1 \<le> long_period \<and> 1 \<le> rsi_period \<longrightarrow>
      (\<exists>signals. generate_signals prices short_period long_period rsi_period oversold overbought
          = Inr signals)"
    using gs by blast
  have c3: "\<forall>e. calculate_moving_average prices period = Inl e \<longrightarrow> e = ValueError \<and> period \<le> 0"
    using ma[of period prices] by (cases "1 \<le> period") (auto simp: calculate_moving_average_def)
  have c4: "\<forall>e. calculate_rsi prices period = Inl e \<longrightarrow> e = ValueError \<and> period \<le> 0"
    using rsi[of period prices] by (cases "1 \<le> period") (auto simp: calculate_rsi_def)
  have c5: "\<forall>e. generate_signals prices short_period long_period rsi_period oversold overbought = Inl e
          \<longrightarrow> e = ValueError \<and> (short_period \<le> 0 \<or> long_period \<le> 0 \<or> rsi_period \<le> 0)"
  proof (cases "1 \<le> short_period \<and> 1 \<le> long_period \<and> 1 \<le> rsi_period")
    case True
    then show ?thesis using gs[of prices] by simp
  next
    case False
    then have bad: "short_period \<le> 0 \<or> long_period \<le> 0 \<or> rsi_period \<le> 0" by linarith
    then show ?thesis using generate_signals_invalid[OF bad, of prices oversold overbought] by simp
  qed
  have c6: "1 \<le> period \<longrightarrow>
        calculate_moving_average [] period = Inr [] \<and> calculate_rsi [] period = Inr []"
    by (simp add: ma rsi spec_moving_average_def spec_rsi_series_def)
  have c7: "1 \<le> short_period \<and> 1 \<le> long_period \<and> 1 \<le> rsi_period \<longrightarrow>
        generate_signals [] short_period long_period rsi_period oversold overbought = Inr []"
    using gs[of "[]"] by simp
  have c8: "0 \<le> avg_gain \<and> 0 \<le> avg_loss \<longrightarrow> (\<exists>v. rsi_value avg_gain avg_loss = Inr v)"
    using rsi_value_eq by blast
  show ?thesis
    by (intro conjI; fact c1 c2 c3 c4 c5 c6 c7 c8)
qed

theorem C10_total_witness:
  "(1::int) \<le> 2
   \<and> calculate_moving_average [1, 2, 4, 3, 5] 2
        = Inr [None, Some (3 / 2), Some 3, Some (7 / 2), Some 4]
   \<and> calculate_rsi [1, 2, 4, 3, 5] 2 = Inr [None, None, Some 0, Some 60, Some (1100 / 13)]
   \<and> (1::int) \<le> 1 \<and> (1::int) \<le> 2 \<and> (1::int) \<le> 2
   \<and> generate_signals [1, 2, 4, 3, 5] 1 2 2 30 70
        = Inr [''HOLD'', ''HOLD'', ''BUY'', ''HOLD'', ''HOLD'']
   \<and> (0::real) \<le> 3 / 4 \<and> (0::real) \<le> 1 / 2
   \<and> rsi_value (3 / 4) (1 / 2) = Inr 60"
proof -
  note t = C10_total[of 2 "[1, 2, 4, 3, 5]" 1 2 2 30 70 "3 / 4" "1 / 2"]
  have h1: "(1::int) \<le> 2" by simp
  have h2: "(1::int) \<le> 1 \<and> (1::int) \<le> 2 \<and> (1::int) \<le> 2" by simp
  have h3: "(0::real) \<le> 3 / 4 \<and> (0::real) \<le> 1 / 2" by simp
  have e_ma: "calculate_moving_average [1, 2, 4, 3, 5] 2
        = Inr [None, Some (3 / 2), Some 3, Some (7 / 2), Some 4]" by code_simp
  have e_rsi: "calculate_rsi [1, 2, 4, 3, 5] 2
        = Inr [None, None, Some 0, Some 60, Some (1100 / 13)]" by code_simp
  have e_sig: "generate_signals [1, 2, 4, 3, 5] 1 2 2 30 70
        = Inr [''HOLD'', ''HOLD'', ''BUY'', ''HOLD'', ''HOLD'']" by code_simp
  have e_val: "rsi_value (3 / 4) (1 / 2) = Inr 60" by code_simp
  from t h1 obtain ma rsi where
    m: "calculate_moving_average [1, 2, 4, 3, 5] 2 = Inr ma"
    and r: "calculate_rsi [1, 2, 4, 3, 5] 2 = Inr rsi"
    by blast
  from t h2 obtain signals where
    s: "generate_signals [1, 2, 4, 3, 5] 1 2 2 30 70 = Inr signals"
    by blast
  from t h3 obtain v where v: "rsi_value (3 / 4) (1 / 2) = Inr v"
    by blast
  have "ma = [None, Some (3 / 2), Some 3, Some (7 / 2), Some 4]"
    using m e_ma by simp
  with m have c1: "calculate_moving_average [1, 2, 4, 3, 5] 2
        = Inr [None, Some (3 / 2), Some 3, Some (7 / 2), Some 4]" by simp
  have "rsi = [None, None, Some 0, Some 60, Some (1100 / 13)]"
    using r e_rsi by simp
  with r have c2: "calculate_rsi [1, 2, 4, 3, 5] 2
        = Inr [None, None, Some 0, Some 60, Some (1100 / 13)]" by simp
  have "signals = [''HOLD'', ''HOLD'', ''BUY'', ''HOLD'', ''HOLD'']"
    using s e_sig by simp
  with s have c3: "generate_signals [1, 2, 4, 3, 5] 1 2 2 30 70
        = Inr [''HOLD'', ''HOLD'', ''BUY'', ''HOLD'', ''HOLD'']" by simp
  have "v = 60" using v e_val by simp
  with v have c4: "rsi_value (3 / 4) (1 / 2) = Inr 60" by simp
  from h1 h2 h3 c1 c2 c3 c4 show ?thesis by blast
qed



end
